theory Spec2Isabelle
  imports Complex_Main "HOL-Library.AList"
begin

section \<open>JavaScript \<open>Map\<close> objects\<close>

text \<open>
  Every \<open>new Map()\<close> of the server is modelled as an association list in insertion
  order. \<open>Map.prototype.set\<close> overwrites the value of a key that is present, in place,
  and appends a new entry at the end otherwise (\<open>AList.update\<close>); \<open>delete\<close> removes
  the entry of the key (\<open>AList.delete\<close>); \<open>get\<close> is \<open>map_of\<close>, with \<open>None\<close> for
  \<open>undefined\<close>; \<open>size\<close> is the number of entries. The keys of a map that is built from the
  empty one by these operations are distinct.
\<close>

type_synonym ('k, 'v) jsmap = "('k \<times> 'v) list"

definition map_get :: "('k, 'v) jsmap \<Rightarrow> 'k \<Rightarrow> 'v option" where
  "map_get m k = map_of m k"

definition map_has :: "('k, 'v) jsmap \<Rightarrow> 'k \<Rightarrow> bool" where
  "map_has m k = (map_of m k \<noteq> None)"

definition map_set :: "('k, 'v) jsmap \<Rightarrow> 'k \<Rightarrow> 'v \<Rightarrow> ('k, 'v) jsmap" where
  "map_set m k v = AList.update k v m"

definition map_delete :: "('k, 'v) jsmap \<Rightarrow> 'k \<Rightarrow> ('k, 'v) jsmap" where
  "map_delete m k = AList.delete k m"

definition map_size :: "('k, 'v) jsmap \<Rightarrow> nat" where
  "map_size m = length m"

definition map_keys_ok :: "('k, 'v) jsmap \<Rightarrow> bool" where
  "map_keys_ok m = distinct (map fst m)"

section \<open>The operation log: \<open>src/server/drawing-state.js\<close>\<close>

text \<open>
  The object that the \<open>draw\<close> handler of \<open>server.js\<close> passes to \<open>addOperation\<close>.
  The log reads only \<open>userId\<close>; the other fields travel with the operation.
\<close>

record operation =
  op_type :: string
  userId :: string
  x0 :: real
  y0 :: real
  x1 :: real
  y1 :: real
  color :: string
  width :: real
  timestamp :: int

record DrawingState =
  history :: "operation list"
  userRedoStacks :: "(string, operation list) jsmap"

text \<open>\<open>constructor()\<close>\<close>

definition newDrawingState :: DrawingState where
  "newDrawingState = \<lparr>history = [], userRedoStacks = []\<rparr>"

text \<open>\<open>addOperation(operation)\<close>: push onto the history, delete the author's redo stack.\<close>

definition addOperation :: "DrawingState \<Rightarrow> operation \<Rightarrow> DrawingState" where
  "addOperation s operation =
     s\<lparr>history := history s @ [operation],
       userRedoStacks := map_delete (userRedoStacks s) (userId operation)\<rparr>"

text \<open>\<open>getHistory()\<close>: a copy of the history array.\<close>

definition getHistory :: "DrawingState \<Rightarrow> operation list" where
  "getHistory s = history s"

text \<open>\<open>this.history.splice(i, 1)\<close>: the array without the element at index \<open>i\<close>.\<close>

definition splice1 :: "nat \<Rightarrow> 'a list \<Rightarrow> 'a list" where
  "splice1 i xs = take i xs @ drop (Suc i) xs"

text \<open>
  The body of the \<open>if\<close> inside the loop of \<open>undoUserOperation\<close>, for the index \<open>i\<close>
  at which the user's operation was found: the operation leaves the history, an empty
  redo stack is created for the user when there is none, and the operation is pushed
  onto the user's redo stack.
\<close>

definition undoAt :: "DrawingState \<Rightarrow> string \<Rightarrow> nat \<Rightarrow> DrawingState" where
  "undoAt s uid i =
     (let operation = history s ! i;
          h = splice1 i (history s);
          stacks = (if \<not> map_has (userRedoStacks s) uid
                    then map_set (userRedoStacks s) uid []
                    else userRedoStacks s);
          stacks' = (case map_get stacks uid of
                       Some st \<Rightarrow> map_set stacks uid (st @ [operation])
                     | None \<Rightarrow> stacks)
      in s\<lparr>history := h, userRedoStacks := stacks'\<rparr>)"

text \<open>
  \<open>for (let i = this.history.length - 1; i >= 0; i--)\<close>: the argument \<open>k\<close> of
  \<open>undoLoop\<close> is \<open>i + 1\<close>, so that \<open>k = 0\<close> is the exit of the loop (\<open>return false\<close>) and
  the index read is \<open>k - 1 < length (history s)\<close>.
\<close>

fun undoLoop :: "DrawingState \<Rightarrow> string \<Rightarrow> nat \<Rightarrow> DrawingState \<times> bool" where
  "undoLoop s uid 0 = (s, False)"
| "undoLoop s uid (Suc i) =
     (if userId (history s ! i) = uid then (undoAt s uid i, True)
      else undoLoop s uid i)"

definition undoUserOperation :: "DrawingState \<Rightarrow> string \<Rightarrow> DrawingState \<times> bool" where
  "undoUserOperation s uid = undoLoop s uid (length (history s))"

text \<open>
  \<open>redoUserOperation(userId)\<close>: \<open>redoStack && redoStack.length > 0\<close> fails for a
  missing stack and for an empty one; otherwise \<open>pop()\<close> takes the last element of the
  stack, which stays in the map with one element less.
\<close>

definition redoUserOperation :: "DrawingState \<Rightarrow> string \<Rightarrow> DrawingState \<times> bool" where
  "redoUserOperation s uid =
     (case map_get (userRedoStacks s) uid of
        None \<Rightarrow> (s, False)
      | Some redoStack \<Rightarrow>
          if length redoStack > 0
          then (s\<lparr>history := history s @ [last redoStack],
                  userRedoStacks := map_set (userRedoStacks s) uid (butlast redoStack)\<rparr>, True)
          else (s, False))"

text \<open>\<open>clear()\<close>\<close>

definition clear :: "DrawingState \<Rightarrow> DrawingState" where
  "clear s = s\<lparr>history := [], userRedoStacks := []\<rparr>"

text \<open>The redo stack of a user as a sequence: a missing stack holds no operation.\<close>

definition redoStackOf :: "DrawingState \<Rightarrow> string \<Rightarrow> operation list" where
  "redoStackOf s uid = (case map_get (userRedoStacks s) uid of None \<Rightarrow> [] | Some st \<Rightarrow> st)"


subsection \<open>Sequences of log operations\<close>

text \<open>
  The four mutating methods of the log as commands, and the log after a sequence of them.
  \<open>present s operation\<close> says that the operation is somewhere in the log: in the history
  or in a redo stack. \<open>freshRun s cs\<close> says that every operation appended by the sequence
  \<open>cs\<close>, run from \<open>s\<close>, is absent from the log at the moment it is appended.
\<close>

datatype command = Append operation | Undo string | Redo string | Clear

fun applyCommand :: "DrawingState \<Rightarrow> command \<Rightarrow> DrawingState" where
  "applyCommand s (Append operation) = addOperation s operation"
| "applyCommand s (Undo uid) = fst (undoUserOperation s uid)"
| "applyCommand s (Redo uid) = fst (redoUserOperation s uid)"
| "applyCommand s Clear = clear s"

definition run :: "DrawingState \<Rightarrow> command list \<Rightarrow> DrawingState" where
  "run s cs = foldl applyCommand s cs"

definition present :: "DrawingState \<Rightarrow> operation \<Rightarrow> bool" where
  "present s operation =
     (operation \<in> set (history s) \<or> (\<exists>e \<in> set (userRedoStacks s). operation \<in> set (snd e)))"

fun freshRun :: "DrawingState \<Rightarrow> command list \<Rightarrow> bool" where
  "freshRun s [] = True"
| "freshRun s (Append operation # cs) =
     (\<not> present s operation \<and> freshRun (addOperation s operation) cs)"
| "freshRun s (c # cs) = freshRun (applyCommand s c) cs"

text \<open>
  The invariant of the log that the sequences preserve: no operation twice in the
  history, no operation twice in a redo stack, no operation both in the history and in a
  redo stack, and every operation of a redo stack stored under its own author.
\<close>

definition logInv :: "DrawingState \<Rightarrow> bool" where
  "logInv s =
     (distinct (history s) \<and>
      (\<forall>u st. map_get (userRedoStacks s) u = Some st \<longrightarrow>
         distinct st \<and> set st \<inter> set (history s) = {} \<and> (\<forall>operation \<in> set st. userId operation = u)))"

section \<open>Rooms and the socket handlers: \<open>src/server/server.js\<close>\<close>

text \<open>The value stored for a user by \<open>Room.addUser\<close>: \<open>{ socketId, name }\<close>.\<close>

record userData =
  socketId :: string
  name :: string

text \<open>\<open>class Room\<close>; a cursor position \<open>{ x, y }\<close> is a pair.\<close>

record Room =
  roomId :: string
  users :: "(string, userData) jsmap"
  cursorPositions :: "(string, real \<times> real) jsmap"
  drawingState :: DrawingState

definition newRoom :: "string \<Rightarrow> Room" where
  "newRoom rid = \<lparr>roomId = rid, users = [], cursorPositions = [], drawingState = newDrawingState\<rparr>"

definition addUser :: "Room \<Rightarrow> string \<Rightarrow> string \<Rightarrow> string \<Rightarrow> Room" where
  "addUser room uid sid nm = room\<lparr>users := map_set (users room) uid \<lparr>socketId = sid, name = nm\<rparr>\<rparr>"

definition removeUser :: "Room \<Rightarrow> string \<Rightarrow> Room" where
  "removeUser room uid =
     room\<lparr>users := map_delete (users room) uid,
          cursorPositions := map_delete (cursorPositions room) uid\<rparr>"

definition updateCursor :: "Room \<Rightarrow> string \<Rightarrow> real \<Rightarrow> real \<Rightarrow> Room" where
  "updateCursor room uid px py = room\<lparr>cursorPositions := map_set (cursorPositions room) uid (px, py)\<rparr>"

definition getUsers :: "Room \<Rightarrow> userData list" where
  "getUsers room = map snd (users room)"

definition getCursors :: "Room \<Rightarrow> (string \<times> real \<times> real) list" where
  "getCursors room = map (\<lambda>(uid, pos). (uid, pos)) (cursorPositions room)"

text \<open>
  The global state of the process: the two global maps of \<open>server.js\<close>, and for every
  socket id the value of \<open>socket.rooms\<close>, the set (in insertion order) of the socket.io
  rooms the socket is in. A socket that is not connected is in no room.
\<close>

record ServerState =
  rooms :: "(string, Room) jsmap"
  userColors :: "(string, string) jsmap"
  socketRooms :: "string \<Rightarrow> string list"

definition initialState :: ServerState where
  "initialState = \<lparr>rooms = [], userColors = [], socketRooms = (\<lambda>_. [])\<rparr>"

text \<open>
  What a handler sends. \<open>socket.emit\<close> goes to the socket itself, \<open>socket.to(r).emit\<close> to
  the sockets of room \<open>r\<close> except the sender, \<open>io.to(r).emit\<close> to all sockets of room \<open>r\<close>.
  An entry of a \<open>users\<close> array is \<open>(userId, name, color)\<close>, where the color is
  \<open>userColors.get(id)\<close>, possibly \<open>undefined\<close>.
\<close>

datatype target = ToSocket string | ToRoomExcept string string | ToRoom string

type_synonym userView = "string \<times> string \<times> string option"

datatype payload =
    DrawingHistoryJoin "operation list" string "string option" "userView list"
  | UserJoined string string "string option" "userView list"
  | NewDrawOperation string real real real real string real
  | UserCursors "(string \<times> real \<times> real) list" "userView list"
  | DrawingHistoryUndoRedo "operation list"
  | DrawingHistoryCleared
  | UserLeft string "userView list"

type_synonym emit = "target \<times> payload"

text \<open>The palette of the \<open>join-room\<close> handler.\<close>

definition colors :: "string list" where
  "colors = [''#FF6B6B'', ''#4ECDC4'', ''#45B7D1'', ''#FFA07A'',
             ''#98D8C8'', ''#F7DC6F'', ''#BB8FCE'', ''#85C1E2'']"

text \<open>\<open>Array.from(room.users.entries()).map(([id, userData]) => ({ userId: id, name, color }))\<close>\<close>

definition usersWithColors :: "Room \<Rightarrow> (string, string) jsmap \<Rightarrow> userView list" where
  "usersWithColors room cols = map (\<lambda>(uid, ud). (uid, name ud, map_get cols uid)) (users room)"

text \<open>
  \<open>socket.on("join-room")\<close>. The socket leaves the first socket.io room of
  \<open>socket.rooms\<close> that is not its own id (\<open>if (previousRoom)\<close> is also false for the empty
  string) and joins \<open>roomId\<close>; the room object is created when the registry has none; the
  user is added, and the color is chosen from the size of \<open>room.users\<close> after the
  insertion. The branch \<open>None\<close> of the lookup after the insertion is never taken.
\<close>

definition onJoinRoom :: "string \<Rightarrow> string \<Rightarrow> string \<Rightarrow> string \<Rightarrow> ServerState \<Rightarrow> ServerState \<times> emit list" where
  "onJoinRoom sid rid uid uname s =
     (let previousRoom = find (\<lambda>r. r \<noteq> sid) (socketRooms s sid);
          left = (case previousRoom of
                    Some p \<Rightarrow> if p \<noteq> [] then removeAll p (socketRooms s sid) else socketRooms s sid
                  | None \<Rightarrow> socketRooms s sid);
          joined = (if rid \<in> set left then left else left @ [rid]);
          rooms1 = (if \<not> map_has (rooms s) rid then map_set (rooms s) rid (newRoom rid) else rooms s)
      in case map_get rooms1 rid of
           None \<Rightarrow> (s, [])
         | Some room0 \<Rightarrow>
             let room = addUser room0 uid sid uname;
                 colorIndex = map_size (users room) mod length colors;
                 cols = map_set (userColors s) uid (colors ! colorIndex);
                 views = usersWithColors room cols
             in (s\<lparr>rooms := map_set rooms1 rid room, userColors := cols,
                    socketRooms := (socketRooms s)(sid := joined)\<rparr>,
                 [(ToSocket sid, DrawingHistoryJoin (getHistory (drawingState room)) uid (map_get cols uid) views),
                  (ToRoomExcept rid sid, UserJoined uid uname (map_get cols uid) views)]))"

text \<open>
  \<open>socket.on("draw")\<close>: the operation is added when the room exists; the broadcast of
  \<open>new-draw-operation\<close> stands after the \<open>if (room)\<close> block. \<open>now\<close> is \<open>Date.now()\<close>.
\<close>

definition onDraw :: "string \<Rightarrow> string \<Rightarrow> real \<Rightarrow> real \<Rightarrow> real \<Rightarrow> real \<Rightarrow> string \<Rightarrow> real \<Rightarrow> int
    \<Rightarrow> ServerState \<Rightarrow> ServerState \<times> emit list" where
  "onDraw rid uid ax0 ay0 ax1 ay1 col w now s =
     (let s' = (case map_get (rooms s) rid of
                  Some room \<Rightarrow>
                    s\<lparr>rooms := map_set (rooms s) rid
                         (room\<lparr>drawingState := addOperation (drawingState room)
                            \<lparr>op_type = ''draw'', userId = uid, x0 = ax0, y0 = ay0, x1 = ax1, y1 = ay1,
                             color = col, width = w, timestamp = now\<rparr>\<rparr>)\<rparr>
                | None \<Rightarrow> s)
      in (s', [(ToRoom rid, NewDrawOperation uid ax0 ay0 ax1 ay1 col w)]))"

text \<open>\<open>socket.on("cursor-move")\<close>\<close>

definition onCursorMove :: "string \<Rightarrow> string \<Rightarrow> string \<Rightarrow> real \<Rightarrow> real \<Rightarrow> ServerState \<Rightarrow> ServerState \<times> emit list" where
  "onCursorMove sid rid uid px py s =
     (case map_get (rooms s) rid of
        Some room0 \<Rightarrow>
          let room = updateCursor room0 uid px py
          in (s\<lparr>rooms := map_set (rooms s) rid room\<rparr>,
              [(ToRoomExcept rid sid, UserCursors (getCursors room) (usersWithColors room (userColors s)))])
      | None \<Rightarrow> (s, []))"

text \<open>\<open>socket.on("request-undo")\<close>\<close>

definition onRequestUndo :: "string \<Rightarrow> string \<Rightarrow> ServerState \<Rightarrow> ServerState \<times> emit list" where
  "onRequestUndo rid uid s =
     (case map_get (rooms s) rid of
        Some room0 \<Rightarrow>
          let room = room0\<lparr>drawingState := fst (undoUserOperation (drawingState room0) uid)\<rparr>
          in (s\<lparr>rooms := map_set (rooms s) rid room\<rparr>,
              [(ToRoom rid, DrawingHistoryUndoRedo (getHistory (drawingState room)))])
      | None \<Rightarrow> (s, []))"

text \<open>\<open>socket.on("request-redo")\<close>\<close>

definition onRequestRedo :: "string \<Rightarrow> string \<Rightarrow> ServerState \<Rightarrow> ServerState \<times> emit list" where
  "onRequestRedo rid uid s =
     (case map_get (rooms s) rid of
        Some room0 \<Rightarrow>
          let room = room0\<lparr>drawingState := fst (redoUserOperation (drawingState room0) uid)\<rparr>
          in (s\<lparr>rooms := map_set (rooms s) rid room\<rparr>,
              [(ToRoom rid, DrawingHistoryUndoRedo (getHistory (drawingState room)))])
      | None \<Rightarrow> (s, []))"

text \<open>\<open>socket.on("clear-canvas")\<close>\<close>

definition onClearCanvas :: "string \<Rightarrow> ServerState \<Rightarrow> ServerState \<times> emit list" where
  "onClearCanvas rid s =
     (case map_get (rooms s) rid of
        Some room0 \<Rightarrow>
          (s\<lparr>rooms := map_set (rooms s) rid (room0\<lparr>drawingState := clear (drawingState room0)\<rparr>)\<rparr>,
           [(ToRoom rid, DrawingHistoryCleared)])
      | None \<Rightarrow> (s, []))"

text \<open>
  The callback of \<open>rooms.forEach\<close> in the \<open>disconnect\<close> handler, for one entry of the
  registry: the first user of the room whose \<open>socketId\<close> is the socket's is removed with
  its color, \<open>user-left\<close> is sent to the room, and the room is deleted from the registry
  when it has no user left.
\<close>

definition disconnectRoom :: "string \<Rightarrow> ServerState \<times> emit list \<Rightarrow> string \<times> Room \<Rightarrow> ServerState \<times> emit list" where
  "disconnectRoom sid acc entry =
     (case find (\<lambda>e. socketId (snd e) = sid) (users (snd entry)) of
        None \<Rightarrow> acc
      | Some userEntry \<Rightarrow>
          let uid = fst userEntry;
              room = removeUser (snd entry) uid;
              cols = map_delete (userColors (fst acc)) uid;
              views = usersWithColors room cols;
              rooms' = (if map_size (users room) = 0
                        then map_delete (rooms (fst acc)) (fst entry)
                        else map_set (rooms (fst acc)) (fst entry) room)
          in ((fst acc)\<lparr>rooms := rooms', userColors := cols\<rparr>,
              snd acc @ [(ToRoom (fst entry), UserLeft uid views)]))"

text \<open>
  \<open>socket.on("disconnect")\<close>: socket.io has taken the socket out of its rooms when the
  event fires; the callback then runs over the entries of the registry in order.
\<close>

definition onDisconnect :: "string \<Rightarrow> ServerState \<Rightarrow> ServerState \<times> emit list" where
  "onDisconnect sid s =
     foldl (disconnectRoom sid) (s\<lparr>socketRooms := (socketRooms s)(sid := [])\<rparr>, []) (rooms s)"

text \<open>
  The events a socket delivers to the server. \<open>Connection\<close> is the creation of the socket,
  which starts in the socket.io room of its own id.
\<close>

datatype event =
    Connection
  | JoinRoom string string string
  | Draw string string real real real real string real
  | CursorMove string string real real
  | RequestUndo string string
  | RequestRedo string string
  | ClearCanvas string
  | Disconnect

fun handle :: "string \<Rightarrow> int \<Rightarrow> event \<Rightarrow> ServerState \<Rightarrow> ServerState \<times> emit list" where
  "handle sid now Connection s = (s\<lparr>socketRooms := (socketRooms s)(sid := [sid])\<rparr>, [])"
| "handle sid now (JoinRoom rid uid uname) s = onJoinRoom sid rid uid uname s"
| "handle sid now (Draw rid uid ax0 ay0 ax1 ay1 col w) s = onDraw rid uid ax0 ay0 ax1 ay1 col w now s"
| "handle sid now (CursorMove rid uid px py) s = onCursorMove sid rid uid px py s"
| "handle sid now (RequestUndo rid uid) s = onRequestUndo rid uid s"
| "handle sid now (RequestRedo rid uid) s = onRequestRedo rid uid s"
| "handle sid now (ClearCanvas rid) s = onClearCanvas rid s"
| "handle sid now Disconnect s = onDisconnect sid s"

text \<open>The server after a sequence of events, each with its socket and its clock value.\<close>

definition runEvents :: "ServerState \<Rightarrow> (string \<times> int \<times> event) list \<Rightarrow> ServerState" where
  "runEvents s es = foldl (\<lambda>st e. fst (handle (fst e) (fst (snd e)) (snd (snd e)) st)) s es"


subsection \<open>Derived notions for the handlers\<close>

text \<open>
  The room object on which the \<open>join-room\<close> handler ends (the room of the registry, or a
  new one, with the user added) and the color it takes from the palette.
\<close>

definition joinedRoom :: "string \<Rightarrow> string \<Rightarrow> string \<Rightarrow> string \<Rightarrow> ServerState \<Rightarrow> Room" where
  "joinedRoom sid rid uid uname s =
     addUser (case map_get (rooms s) rid of None \<Rightarrow> newRoom rid | Some r \<Rightarrow> r) uid sid uname"

definition joinedColor :: "string \<Rightarrow> string \<Rightarrow> string \<Rightarrow> string \<Rightarrow> ServerState \<Rightarrow> string" where
  "joinedColor sid rid uid uname s =
     colors ! (map_size (users (joinedRoom sid rid uid uname s)) mod length colors)"

text \<open>Every user and every cursor of room \<open>r\<close> is still a key of room \<open>r'\<close>.\<close>

definition keepsMembers :: "Room \<Rightarrow> Room \<Rightarrow> bool" where
  "keepsMembers r r' =
     ((\<forall>u. map_has (users r) u \<longrightarrow> map_has (users r') u) \<and>
      (\<forall>u. map_has (cursorPositions r) u \<longrightarrow> map_has (cursorPositions r') u))"

text \<open>What the disconnect of socket \<open>sid\<close> makes of a room of the registry.\<close>

definition afterDisconnect :: "string \<Rightarrow> Room \<Rightarrow> Room option" where
  "afterDisconnect sid r =
     (case find (\<lambda>e. socketId (snd e) = sid) (users r) of
        None \<Rightarrow> Some r
      | Some userEntry \<Rightarrow>
          if map_size (users (removeUser r (fst userEntry))) = 0 then None
          else Some (removeUser r (fst userEntry)))"

section \<open>Sample data\<close>

text \<open>A segment drawn by a user at a clock value, as the \<open>draw\<close> handler builds it.\<close>

definition segment :: "string \<Rightarrow> int \<Rightarrow> operation" where
  "segment uid t = \<lparr>op_type = ''draw'', userId = uid, x0 = 0, y0 = 0, x1 = 5, y1 = 5,
                    color = ''#FF0000'', width = 3, timestamp = t\<rparr>"

definition logABC :: DrawingState where
  "logABC = \<lparr>history = [segment ''A'' 1, segment ''B'' 2, segment ''C'' 3], userRedoStacks = []\<rparr>"

definition logBC :: DrawingState where
  "logBC = \<lparr>history = [segment ''B'' 2, segment ''C'' 3],
            userRedoStacks = [(''A'', [segment ''A'' 1])]\<rparr>"

definition sampleRun :: "command list" where
  "sampleRun = [Append (segment ''A'' 1), Append (segment ''B'' 2), Undo ''A'', Redo ''A'',
                Undo ''B'', Append (segment ''A'' 3), Undo ''A'']"

text \<open>
  Two users join room \<open>r\<close>, the first draws a segment and disconnects: \<open>roomLeft\<close> is the
  room that remains, with the segment of the departed user in its history.
\<close>

definition departedScenario :: "(string \<times> int \<times> event) list" where
  "departedScenario =
     [(''s1'', 0, Connection), (''s1'', 1, JoinRoom ''r'' ''u1'' ''Ann''),
      (''s2'', 2, Connection), (''s2'', 3, JoinRoom ''r'' ''u2'' ''Bob''),
      (''s1'', 4, Draw ''r'' ''u1'' 0 0 5 5 ''#FF0000'' 3),
      (''s1'', 5, Disconnect)]"

definition roomLeft :: Room where
  "roomLeft = \<lparr>roomId = ''r'', users = [(''u2'', \<lparr>socketId = ''s2'', name = ''Bob''\<rparr>)],
               cursorPositions = [],
               drawingState = \<lparr>history = [segment ''u1'' 4], userRedoStacks = []\<rparr>\<rparr>"

text \<open>
  Two sockets join room \<open>r\<close> under the same user id and the second disconnects: the
  registry loses the room while the first socket is still in the socket.io room \<open>r\<close>.
\<close>

definition sharedIdScenario :: "(string \<times> int \<times> event) list" where
  "sharedIdScenario =
     [(''s1'', 0, Connection), (''s1'', 1, JoinRoom ''r'' ''u'' ''Ann''),
      (''s2'', 2, Connection), (''s2'', 3, JoinRoom ''r'' ''u'' ''Ann''),
      (''s2'', 4, Disconnect)]"

text \<open>Seven users join room \<open>r\<close>.\<close>

definition sevenJoins :: "(string \<times> int \<times> event) list" where
  "sevenJoins =
     [(''s1'', 1, JoinRoom ''r'' ''u1'' ''n1''), (''s2'', 2, JoinRoom ''r'' ''u2'' ''n2''),
      (''s3'', 3, JoinRoom ''r'' ''u3'' ''n3''), (''s4'', 4, JoinRoom ''r'' ''u4'' ''n4''),
      (''s5'', 5, JoinRoom ''r'' ''u5'' ''n5''), (''s6'', 6, JoinRoom ''r'' ''u6'' ''n6''),
      (''s7'', 7, JoinRoom ''r'' ''u7'' ''n7'')]"

text \<open>One user joins room \<open>a\<close>; \<open>roomA1\<close> is that room.\<close>

definition oneRoomScenario :: "(string \<times> int \<times> event) list" where
  "oneRoomScenario = [(''s1'', 0, Connection), (''s1'', 1, JoinRoom ''a'' ''u1'' ''Ann'')]"

definition roomA1 :: Room where
  "roomA1 = \<lparr>roomId = ''a'', users = [(''u1'', \<lparr>socketId = ''s1'', name = ''Ann''\<rparr>)],
             cursorPositions = [], drawingState = newDrawingState\<rparr>"

section \<open>Properties of the operation log\<close>

lemma undoLoop_found:
  "\<exists>j<k. userId (history s ! j) = uid \<Longrightarrow>
   \<exists>i<k. userId (history s ! i) = uid \<and>
         (\<forall>j. i < j \<and> j < k \<longrightarrow> userId (history s ! j) \<noteq> uid) \<and>
         undoLoop s uid k = (undoAt s uid i, True)"
proof (induction k)
  case 0
  then show ?case by simp
next
  case (Suc k)
  show ?case
  proof (cases "userId (history s ! k) = uid")
    case True
    then have "userId (history s ! k) = uid \<and>
         (\<forall>j. k < j \<and> j < Suc k \<longrightarrow> userId (history s ! j) \<noteq> uid) \<and>
         undoLoop s uid (Suc k) = (undoAt s uid k, True)" by auto
    then show ?thesis by blast
  next
    case False
    with Suc.prems have "\<exists>j<k. userId (history s ! j) = uid"
      using less_Suc_eq by auto
    from Suc.IH [OF this] obtain i where i: "i < k" "userId (history s ! i) = uid"
      "\<forall>j. i < j \<and> j < k \<longrightarrow> userId (history s ! j) \<noteq> uid"
      "undoLoop s uid k = (undoAt s uid i, True)" by blast
    have "\<forall>j. i < j \<and> j < Suc k \<longrightarrow> userId (history s ! j) \<noteq> uid"
      using i(3) False less_Suc_eq by auto
    moreover have "undoLoop s uid (Suc k) = (undoAt s uid i, True)"
      using False i(4) by simp
    ultimately show ?thesis using i(1,2) less_SucI by blast
  qed
qed

lemma undoLoop_none:
  "\<forall>j<k. userId (history s ! j) \<noteq> uid \<Longrightarrow> undoLoop s uid k = (s, False)"
  by (induction k) simp_all

lemma history_undoAt: "history (undoAt s uid i) = take i (history s) @ drop (Suc i) (history s)"
  by (simp add: undoAt_def Let_def splice1_def split: option.splits)

lemma redoStackOf_undoAt:
  "redoStackOf (undoAt s uid i) uid = redoStackOf s uid @ [history s ! i]"
  by (auto simp add: undoAt_def Let_def redoStackOf_def map_get_def map_has_def map_set_def
        update_conv' split: option.splits)

lemma others_undoAt:
  "u \<noteq> uid \<Longrightarrow> map_get (userRedoStacks (undoAt s uid i)) u = map_get (userRedoStacks s) u"
  by (auto simp add: undoAt_def Let_def map_get_def map_has_def map_set_def
        update_conv' split: option.splits)

text \<open>
  Claim C1. When the history holds an operation of user \<open>uid\<close>, \<open>undoUserOperation\<close>
  removes the one at the greatest index \<open>i\<close> (no later operation is the user's), the
  history keeps all other operations in their order, the removed operation is pushed
  onto the user's redo stack, and the result is \<open>true\<close>.
\<close>
theorem undo_removes_last_operation_of_user:
  assumes "\<exists>op \<in> set (history s). userId op = uid"
  shows "\<exists>i < length (history s).
           userId (history s ! i) = uid \<and>
           (\<forall>j. i < j \<and> j < length (history s) \<longrightarrow> userId (history s ! j) \<noteq> uid) \<and>
           history (fst (undoUserOperation s uid)) = take i (history s) @ drop (Suc i) (history s) \<and>
           redoStackOf (fst (undoUserOperation s uid)) uid = redoStackOf s uid @ [history s ! i] \<and>
           snd (undoUserOperation s uid) = True"
proof -
  from assms have "\<exists>j<length (history s). userId (history s ! j) = uid"
    by (metis in_set_conv_nth)
  from undoLoop_found [OF this] obtain i where i: "i < length (history s)"
      "userId (history s ! i) = uid"
      "\<forall>j. i < j \<and> j < length (history s) \<longrightarrow> userId (history s ! j) \<noteq> uid"
      "undoLoop s uid (length (history s)) = (undoAt s uid i, True)" by blast
  from i(4) have "undoUserOperation s uid = (undoAt s uid i, True)"
    by (simp add: undoUserOperation_def)
  then show ?thesis using i(1,2,3) history_undoAt redoStackOf_undoAt by auto
qed

text \<open>
  Claim C5. When the history holds no operation of user \<open>uid\<close>, \<open>undoUserOperation\<close>
  returns \<open>false\<close> and the whole log (history and every redo stack) is as before.
\<close>
theorem undo_without_operation_is_noop:
  assumes "\<forall>op \<in> set (history s). userId op \<noteq> uid"
  shows "undoUserOperation s uid = (s, False)"
  unfolding undoUserOperation_def using assms by (intro undoLoop_none) simp

text \<open>
  Claim C2. When the redo stack of \<open>uid\<close> is not empty, \<open>redoUserOperation\<close> takes its last
  element off, appends that operation at the tail of the history, leaves the redo stacks
  of the other users as they are and returns \<open>true\<close>; when the stack is empty or missing,
  it returns \<open>false\<close> and the log is as before.
\<close>
theorem redo_restores_to_tail:
  "(redoStackOf s uid \<noteq> [] \<longrightarrow>
      history (fst (redoUserOperation s uid)) = history s @ [last (redoStackOf s uid)] \<and>
      redoStackOf (fst (redoUserOperation s uid)) uid = butlast (redoStackOf s uid) \<and>
      (\<forall>u. u \<noteq> uid \<longrightarrow>
         map_get (userRedoStacks (fst (redoUserOperation s uid))) u = map_get (userRedoStacks s) u) \<and>
      snd (redoUserOperation s uid) = True) \<and>
   (redoStackOf s uid = [] \<longrightarrow> redoUserOperation s uid = (s, False))"
  by (auto simp add: redoUserOperation_def redoStackOf_def map_get_def map_set_def update_conv'
        split: option.splits)

text \<open>
  Claim C3. \<open>addOperation\<close> appends the operation at the tail of the history, leaves its
  author without redo stack, and leaves the redo stack of every other user as it is. The
  function is total: it has a result for every log and every operation.
\<close>
theorem append_clears_only_author_redo:
  "history (addOperation s operation) = history s @ [operation] \<and>
   map_get (userRedoStacks (addOperation s operation)) (userId operation) = None \<and>
   redoStackOf (addOperation s operation) (userId operation) = [] \<and>
   (\<forall>u. u \<noteq> userId operation \<longrightarrow>
      map_get (userRedoStacks (addOperation s operation)) u = map_get (userRedoStacks s) u)"
  by (simp add: addOperation_def redoStackOf_def map_get_def map_delete_def delete_conv')

text \<open>
  Claim C6. After \<open>clear\<close> the snapshot of the history is the empty sequence and every
  user's redo stack is empty.
\<close>
theorem clear_is_total:
  "getHistory (clear s) = [] \<and> userRedoStacks (clear s) = [] \<and>
   (\<forall>u. map_get (userRedoStacks (clear s)) u = None \<and> redoStackOf (clear s) u = [])"
  by (simp add: clear_def getHistory_def redoStackOf_def map_get_def)

lemma splice1_distinct:
  assumes "distinct xs" "i < length xs"
  shows "distinct (splice1 i xs) \<and> set (splice1 i xs) = set xs - {xs ! i}"
proof -
  have xs: "xs = take i xs @ xs ! i # drop (Suc i) xs"
    using assms(2) by (rule id_take_nth_drop)
  have "distinct (take i xs @ xs ! i # drop (Suc i) xs)"
    using assms(1) xs by simp
  then have d: "distinct (take i xs @ drop (Suc i) xs) \<and> xs ! i \<notin> set (take i xs @ drop (Suc i) xs)"
    by auto
  have "set xs = insert (xs ! i) (set (take i xs @ drop (Suc i) xs))"
    by (subst xs) simp
  with d show ?thesis unfolding splice1_def by auto
qed

lemma logInv_new: "logInv newDrawingState"
  by (simp add: logInv_def newDrawingState_def map_get_def)

lemma logInv_clear: "logInv (clear s)"
  by (simp add: logInv_def clear_def map_get_def)

lemma logInv_addOperation:
  assumes "logInv s" "\<not> present s operation"
  shows "logInv (addOperation s operation)"
proof -
  have fresh: "operation \<notin> set (history s)"
    "\<And>u st. map_get (userRedoStacks s) u = Some st \<Longrightarrow> operation \<notin> set st"
    using assms(2) by (force simp add: present_def map_get_def dest: map_of_SomeD)+
  show ?thesis
    using assms(1) fresh
    by (auto simp add: logInv_def addOperation_def map_get_def map_delete_def delete_conv'
          split: if_splits)
qed

lemma logInv_undoAt:
  assumes "logInv s" "i < length (history s)" "userId (history s ! i) = uid"
  shows "logInv (undoAt s uid i)"
proof -
  let ?op = "history s ! i"
  from assms(1) have dh: "distinct (history s)" by (simp add: logInv_def)
  from splice1_distinct [OF dh assms(2)]
  have sp: "distinct (splice1 i (history s))" "set (splice1 i (history s)) = set (history s) - {?op}"
    by simp_all
  have opin: "?op \<in> set (history s)" using assms(2) by simp
  have hist: "history (undoAt s uid i) = splice1 i (history s)"
    by (simp add: undoAt_def Let_def split: option.splits)
  have stk: "map_get (userRedoStacks (undoAt s uid i)) u =
      (if u = uid then Some (redoStackOf s uid @ [?op]) else map_get (userRedoStacks s) u)" for u
    by (auto simp add: undoAt_def Let_def redoStackOf_def map_get_def map_has_def map_set_def
        update_conv' split: option.splits)
  have old: "distinct st \<and> set st \<inter> set (history s) = {} \<and> (\<forall>operation \<in> set st. userId operation = u)"
    if "map_get (userRedoStacks s) u = Some st" for u st
    using assms(1) that by (simp add: logInv_def)
  have mine: "distinct (redoStackOf s uid) \<and> set (redoStackOf s uid) \<inter> set (history s) = {} \<and>
      (\<forall>operation \<in> set (redoStackOf s uid). userId operation = uid)"
    using old [of uid] by (auto simp add: redoStackOf_def split: option.splits)
  show ?thesis
    unfolding logInv_def hist stk
    using sp opin mine old assms(3) by (auto split: if_splits)
qed

lemma logInv_undo:
  assumes "logInv s"
  shows "logInv (fst (undoUserOperation s uid))"
proof (cases "\<exists>j<length (history s). userId (history s ! j) = uid")
  case True
  from undoLoop_found [OF this] obtain i where "i < length (history s)"
    "userId (history s ! i) = uid" "undoLoop s uid (length (history s)) = (undoAt s uid i, True)"
    by blast
  then show ?thesis using logInv_undoAt [OF assms] by (simp add: undoUserOperation_def)
next
  case False
  then have "undoLoop s uid (length (history s)) = (s, False)"
    by (intro undoLoop_none) simp
  then show ?thesis using assms by (simp add: undoUserOperation_def)
qed

lemma logInv_redo:
  assumes "logInv s"
  shows "logInv (fst (redoUserOperation s uid))"
proof (cases "map_get (userRedoStacks s) uid")
  case None
  then show ?thesis using assms by (simp add: redoUserOperation_def)
next
  case (Some st)
  show ?thesis
  proof (cases "st = []")
    case True
    then show ?thesis using assms Some by (simp add: redoUserOperation_def)
  next
    case False
    have old: "distinct st' \<and> set st' \<inter> set (history s) = {} \<and> (\<forall>operation \<in> set st'. userId operation = u)"
      if "map_get (userRedoStacks s) u = Some st'" for u st'
      using assms that by (simp add: logInv_def)
    from old [OF Some] have mine: "distinct st" "set st \<inter> set (history s) = {}"
      "\<forall>operation \<in> set st. userId operation = uid" by simp_all
    have st: "st = butlast st @ [last st]" using False by simp
    have lastin: "last st \<in> set st" using False by simp
    have notbl: "last st \<notin> set (butlast st)"
      using mine(1) st by (metis distinct_butlast append_butlast_last_id distinct_append
          disjoint_iff list.set_intros(1))
    have res: "fst (redoUserOperation s uid) =
        s\<lparr>history := history s @ [last st],
          userRedoStacks := map_set (userRedoStacks s) uid (butlast st)\<rparr>"
      using Some False by (simp add: redoUserOperation_def)
    have stk: "map_get (userRedoStacks (fst (redoUserOperation s uid))) u =
        (if u = uid then Some (butlast st) else map_get (userRedoStacks s) u)" for u
      unfolding res by (simp add: map_get_def map_set_def update_conv')
    have hist: "history (fst (redoUserOperation s uid)) = history s @ [last st]"
      unfolding res by simp
    have uidlast: "userId (last st) = uid" using mine(3) lastin by blast
    have other: "last st \<notin> set st'" if "map_get (userRedoStacks s) u = Some st'" "u \<noteq> uid" for u st'
      using old [OF that(1)] that(2) uidlast by auto
    have dh: "distinct (history s)" using assms by (simp add: logInv_def)
    have bl: "set (butlast st) \<subseteq> set st" by (metis in_set_butlastD subsetI)
    show ?thesis
      unfolding logInv_def hist stk
      using dh mine lastin notbl other old bl distinct_butlast [OF mine(1)]
      by (auto split: if_splits)
  qed
qed

lemma logInv_run:
  "logInv s \<Longrightarrow> freshRun s cs \<Longrightarrow> logInv (run s cs)"
proof (induction cs arbitrary: s)
  case Nil
  then show ?case by (simp add: run_def)
next
  case (Cons c cs)
  have step: "logInv (applyCommand s c)"
    using Cons.prems
    by (cases c) (simp_all add: logInv_addOperation logInv_undo logInv_redo logInv_clear)
  have rest: "freshRun (applyCommand s c) cs"
    using Cons.prems(2) by (cases c) simp_all
  from Cons.IH [OF step rest] show ?case by (simp add: run_def)
qed

text \<open>
  Claim C4. From the empty log, after any sequence of append, undo, redo and clear in which
  every appended operation is absent from the log when it is appended, no operation occurs
  twice in the history and no operation is both in the history and in a redo stack.
\<close>
theorem no_operation_duplicated:
  assumes "freshRun newDrawingState cs"
  shows "distinct (history (run newDrawingState cs)) \<and>
         (\<forall>u. set (redoStackOf (run newDrawingState cs) u) \<inter> set (history (run newDrawingState cs)) = {})"
proof -
  have inv: "logInv (run newDrawingState cs)"
    using logInv_new assms by (rule logInv_run)
  show ?thesis
  proof (intro conjI allI)
    show "distinct (history (run newDrawingState cs))"
      using inv by (simp add: logInv_def)
  next
    fix u
    show "set (redoStackOf (run newDrawingState cs) u) \<inter> set (history (run newDrawingState cs)) = {}"
    proof (cases "map_get (userRedoStacks (run newDrawingState cs)) u")
      case None
      then show ?thesis by (simp add: redoStackOf_def)
    next
      case (Some st)
      with inv have "set st \<inter> set (history (run newDrawingState cs)) = {}"
        unfolding logInv_def by blast
      with Some show ?thesis by (simp add: redoStackOf_def)
    qed
  qed
qed

lemma logABC_simps:
  "history logABC = [segment ''A'' 1, segment ''B'' 2, segment ''C'' 3]"
  "userRedoStacks logABC = []"
  by (simp_all add: logABC_def)

lemma logBC_simps:
  "history logBC = [segment ''B'' 2, segment ''C'' 3]"
  "userRedoStacks logBC = [(''A'', [segment ''A'' 1])]"
  by (simp_all add: logBC_def)

lemma userId_segment: "userId (segment uid t) = uid"
  by (simp add: segment_def)

lemma segment_eq: "(segment u t = segment u' t') = (u = u' \<and> t = t')"
  by (auto simp add: segment_def)

lemma undo_logABC: "undoUserOperation logABC ''A'' = (logBC, True)"
  by (simp add: undoUserOperation_def logABC_def logBC_def undoAt_def splice1_def
      map_has_def map_get_def map_set_def userId_segment numeral_3_eq_3)

theorem undo_removes_last_operation_of_user_witness:
  "(\<exists>op \<in> set (history logABC). userId op = ''A'') \<and>
   (\<exists>i < length (history logABC).
           userId (history logABC ! i) = ''A'' \<and>
           (\<forall>j. i < j \<and> j < length (history logABC) \<longrightarrow> userId (history logABC ! j) \<noteq> ''A'') \<and>
           history (fst (undoUserOperation logABC ''A'')) = take i (history logABC) @ drop (Suc i) (history logABC) \<and>
           redoStackOf (fst (undoUserOperation logABC ''A'')) ''A'' = redoStackOf logABC ''A'' @ [history logABC ! i] \<and>
           snd (undoUserOperation logABC ''A'') = True) \<and>
   history (fst (undoUserOperation logABC ''A'')) = [segment ''B'' 2, segment ''C'' 3]"
proof -
  have h: "\<exists>op \<in> set (history logABC). userId op = ''A''"
    by (simp add: logABC_simps userId_segment)
  have v: "history (fst (undoUserOperation logABC ''A'')) = [segment ''B'' 2, segment ''C'' 3]"
    by (simp add: undo_logABC logBC_simps)
  from undo_removes_last_operation_of_user [OF h] h v show ?thesis by blast
qed

theorem undo_without_operation_is_noop_witness:
  "map userId (history logBC) = [''B'', ''C''] \<and> undoUserOperation logBC ''A'' = (logBC, False)"
proof -
  have h: "\<forall>op \<in> set (history logBC). userId op \<noteq> ''A''"
    by (simp add: logBC_simps userId_segment)
  have m: "map userId (history logBC) = [''B'', ''C'']"
    by (simp add: logBC_simps userId_segment)
  from undo_without_operation_is_noop [OF h] m show ?thesis by blast
qed

lemma redo_logBC:
  "redoUserOperation logBC ''A'' =
     (\<lparr>history = [segment ''B'' 2, segment ''C'' 3, segment ''A'' 1], userRedoStacks = [(''A'', [])]\<rparr>, True)"
  by (simp add: redoUserOperation_def logBC_def map_get_def map_set_def)

theorem redo_restores_to_tail_witness:
  "redoStackOf logBC ''A'' \<noteq> [] \<and>
   history (fst (redoUserOperation logBC ''A'')) = [segment ''B'' 2, segment ''C'' 3, segment ''A'' 1] \<and>
   redoStackOf (fst (redoUserOperation logBC ''A'')) ''A'' = [] \<and>
   snd (redoUserOperation logBC ''A'') = True \<and>
   redoStackOf logABC ''A'' = [] \<and> redoUserOperation logABC ''A'' = (logABC, False)"
proof -
  have h1: "redoStackOf logBC ''A'' = [segment ''A'' 1]"
    by (simp add: redoStackOf_def map_get_def logBC_simps)
  have h2: "redoStackOf logABC ''A'' = []"
    by (simp add: redoStackOf_def map_get_def logABC_simps)
  from redo_restores_to_tail [of logBC "''A''"] redo_restores_to_tail [of logABC "''A''"] h1 h2
  show ?thesis by (simp add: logBC_simps)
qed

theorem append_clears_only_author_redo_witness:
  "''A'' \<noteq> userId (segment ''B'' 4) \<and>
   history (addOperation logBC (segment ''B'' 4)) = [segment ''B'' 2, segment ''C'' 3, segment ''B'' 4] \<and>
   map_get (userRedoStacks (addOperation logBC (segment ''B'' 4))) ''A'' = Some [segment ''A'' 1] \<and>
   redoStackOf (addOperation logBC (segment ''A'' 5)) ''A'' = []"
proof -
  have h: "''A'' \<noteq> userId (segment ''B'' 4)" by (simp add: userId_segment)
  have g: "map_get (userRedoStacks logBC) ''A'' = Some [segment ''A'' 1]"
    by (simp add: map_get_def logBC_simps)
  from append_clears_only_author_redo [of logBC "segment ''B'' 4"]
       append_clears_only_author_redo [of logBC "segment ''A'' 5"] h g
  show ?thesis by (simp add: logBC_simps userId_segment)
qed

lemma sampleRun_value:
  "run newDrawingState sampleRun =
     \<lparr>history = [segment ''A'' 1], userRedoStacks = [(''B'', [segment ''B'' 2]), (''A'', [segment ''A'' 3])]\<rparr>"
  by (simp add: run_def sampleRun_def newDrawingState_def addOperation_def undoUserOperation_def
      redoUserOperation_def undoAt_def splice1_def map_has_def map_get_def map_set_def map_delete_def
      userId_segment numeral_2_eq_2)

lemma sampleRun_fresh: "freshRun newDrawingState sampleRun"
  by (simp add: sampleRun_def newDrawingState_def addOperation_def undoUserOperation_def
      redoUserOperation_def undoAt_def splice1_def map_has_def map_get_def map_set_def map_delete_def
      userId_segment numeral_2_eq_2 present_def segment_eq)

theorem no_operation_duplicated_witness:
  "freshRun newDrawingState sampleRun \<and>
   distinct (history (run newDrawingState sampleRun)) \<and>
   (\<forall>u. set (redoStackOf (run newDrawingState sampleRun) u) \<inter> set (history (run newDrawingState sampleRun)) = {}) \<and>
   history (run newDrawingState sampleRun) = [segment ''A'' 1] \<and>
   redoStackOf (run newDrawingState sampleRun) ''A'' = [segment ''A'' 3]"
proof -
  have v: "history (run newDrawingState sampleRun) = [segment ''A'' 1]"
    "redoStackOf (run newDrawingState sampleRun) ''A'' = [segment ''A'' 3]"
    by (simp_all add: sampleRun_value redoStackOf_def map_get_def)
  from no_operation_duplicated [OF sampleRun_fresh] sampleRun_fresh v show ?thesis by blast
qed


section \<open>Properties of the rooms and the handlers\<close>

lemma get_set: "map_get (map_set m k v) k' = (if k' = k then Some v else map_get m k')"
  by (simp add: map_get_def map_set_def update_conv')

lemma get_delete: "map_get (map_delete m k) k' = (if k' = k then None else map_get m k')"
  by (simp add: map_get_def map_delete_def delete_conv')

lemma has_get: "map_has m k = (map_get m k \<noteq> None)"
  by (simp add: map_has_def map_get_def)

lemma size_set:
  "map_size (map_set m k v) = (if map_has m k then map_size m else Suc (map_size m))"
proof -
  have "length (map fst (AList.update k v m)) =
      (if k \<in> set (map fst m) then length m else Suc (length m))"
    by (simp add: update_keys)
  moreover have "map_has m k = (k \<in> set (map fst m))"
    by (simp add: map_has_def map_of_eq_None_iff)
  ultimately show ?thesis by (simp add: map_size_def map_set_def)
qed

lemma set_same: "map_get m k = Some v \<Longrightarrow> map_set m k v = m"
  by (simp add: map_get_def map_set_def update_triv)

lemma keys_ok_set: "map_keys_ok m \<Longrightarrow> map_keys_ok (map_set m k v)"
  by (simp add: map_keys_ok_def map_set_def distinct_update)

lemma keys_ok_delete: "map_keys_ok m \<Longrightarrow> map_keys_ok (map_delete m k)"
  by (simp add: map_keys_ok_def map_delete_def distinct_delete)

lemma length_colors: "length colors = 8"
  by (simp add: colors_def)

lemma set_set: "map_set (map_set m k v) k v' = map_set m k v'"
  by (simp add: map_set_def)

lemma onJoinRoom_result:
  "rooms (fst (onJoinRoom sid rid uid uname s)) = map_set (rooms s) rid (joinedRoom sid rid uid uname s)"
  "userColors (fst (onJoinRoom sid rid uid uname s)) =
     map_set (userColors s) uid (joinedColor sid rid uid uname s)"
  "snd (onJoinRoom sid rid uid uname s) =
     [(ToSocket sid, DrawingHistoryJoin (getHistory (drawingState (joinedRoom sid rid uid uname s))) uid
         (Some (joinedColor sid rid uid uname s))
         (usersWithColors (joinedRoom sid rid uid uname s)
            (map_set (userColors s) uid (joinedColor sid rid uid uname s)))),
      (ToRoomExcept rid sid, UserJoined uid uname (Some (joinedColor sid rid uid uname s))
         (usersWithColors (joinedRoom sid rid uid uname s)
            (map_set (userColors s) uid (joinedColor sid rid uid uname s))))]"
proof -
  show "rooms (fst (onJoinRoom sid rid uid uname s)) = map_set (rooms s) rid (joinedRoom sid rid uid uname s)"
    by (cases "map_get (rooms s) rid")
      (simp_all add: onJoinRoom_def Let_def has_get get_set set_set joinedRoom_def)
  show "userColors (fst (onJoinRoom sid rid uid uname s)) =
     map_set (userColors s) uid (joinedColor sid rid uid uname s)"
    by (cases "map_get (rooms s) rid")
      (simp_all add: onJoinRoom_def Let_def has_get get_set set_set joinedRoom_def joinedColor_def)
  show "snd (onJoinRoom sid rid uid uname s) =
     [(ToSocket sid, DrawingHistoryJoin (getHistory (drawingState (joinedRoom sid rid uid uname s))) uid
         (Some (joinedColor sid rid uid uname s))
         (usersWithColors (joinedRoom sid rid uid uname s)
            (map_set (userColors s) uid (joinedColor sid rid uid uname s)))),
      (ToRoomExcept rid sid, UserJoined uid uname (Some (joinedColor sid rid uid uname s))
         (usersWithColors (joinedRoom sid rid uid uname s)
            (map_set (userColors s) uid (joinedColor sid rid uid uname s))))]"
    by (cases "map_get (rooms s) rid")
      (simp_all add: onJoinRoom_def Let_def has_get get_set set_set joinedRoom_def joinedColor_def)
qed

lemma has_set: "map_has m k \<Longrightarrow> map_has (map_set m k' v) k"
  by (simp add: has_get get_set)

lemma join_other_room:
  "rid \<noteq> A \<Longrightarrow> map_get (rooms (fst (onJoinRoom sid rid uid uname s))) A = map_get (rooms s) A"
  by (simp add: onJoinRoom_result get_set)

lemma keepsMembers_refl: "keepsMembers r r"
  by (simp add: keepsMembers_def)

lemma handle_keeps_members:
  assumes "ev \<noteq> Disconnect" "map_get (rooms s) A = Some r"
  shows "\<exists>r'. map_get (rooms (fst (handle sid now ev s))) A = Some r' \<and> keepsMembers r r'"
proof (cases ev)
  case Connection
  then show ?thesis using assms(2) by (simp add: keepsMembers_refl)
next
  case (JoinRoom rid uid uname)
  show ?thesis
  proof (cases "rid = A")
    case True
    have "keepsMembers r (addUser r uid sid uname)"
      by (simp add: keepsMembers_def addUser_def has_set)
    then show ?thesis using JoinRoom True assms(2)
      by (simp add: onJoinRoom_result get_set joinedRoom_def)
  next
    case False
    then show ?thesis using JoinRoom assms(2) by (simp add: join_other_room keepsMembers_refl)
  qed
next
  case (Draw rid uid ax0 ay0 ax1 ay1 col w)
  then show ?thesis using assms(2)
    by (cases "map_get (rooms s) rid")
      (auto simp add: onDraw_def Let_def get_set keepsMembers_def)
next
  case (CursorMove rid uid px py)
  then show ?thesis using assms(2)
    by (cases "map_get (rooms s) rid")
      (auto simp add: onCursorMove_def Let_def get_set keepsMembers_def updateCursor_def has_set)
next
  case (RequestUndo rid uid)
  then show ?thesis using assms(2)
    by (cases "map_get (rooms s) rid")
      (auto simp add: onRequestUndo_def Let_def get_set keepsMembers_def)
next
  case (RequestRedo rid uid)
  then show ?thesis using assms(2)
    by (cases "map_get (rooms s) rid")
      (auto simp add: onRequestRedo_def Let_def get_set keepsMembers_def)
next
  case (ClearCanvas rid)
  then show ?thesis using assms(2)
    by (cases "map_get (rooms s) rid")
      (auto simp add: onClearCanvas_def Let_def get_set keepsMembers_def)
next
  case Disconnect
  then show ?thesis using assms(1) by simp
qed

lemma disconnectRoom_rooms:
  "map_get (rooms (fst (disconnectRoom sid acc (k, r)))) A =
     (if A = k \<and> find (\<lambda>e. socketId (snd e) = sid) (users r) \<noteq> None
      then afterDisconnect sid r else map_get (rooms (fst acc)) A)"
  by (auto simp add: disconnectRoom_def afterDisconnect_def Let_def get_set get_delete
        split: option.splits)

lemma disconnect_fold:
  "distinct (map fst es) \<Longrightarrow>
   map_get (rooms (fst (foldl (disconnectRoom sid) acc es))) A =
     (case map_of es A of
        None \<Rightarrow> map_get (rooms (fst acc)) A
      | Some r \<Rightarrow>
          if find (\<lambda>e. socketId (snd e) = sid) (users r) \<noteq> None
          then afterDisconnect sid r else map_get (rooms (fst acc)) A)"
proof (induction es arbitrary: acc)
  case Nil
  then show ?case by simp
next
  case (Cons e es)
  obtain k r where e: "e = (k, r)" by (cases e)
  from Cons.prems e have d: "distinct (map fst es)" and k: "k \<notin> fst ` set es" by auto
  have none: "map_of es k = None" using k by (simp add: map_of_eq_None_iff)
  show ?case
  proof (cases "A = k")
    case True
    then show ?thesis
      using Cons.IH [OF d, of "disconnectRoom sid acc (k, r)"] none e
      by (simp add: disconnectRoom_rooms)
  next
    case False
    then show ?thesis
      using Cons.IH [OF d, of "disconnectRoom sid acc (k, r)"] e
      by (simp add: disconnectRoom_rooms split: option.splits)
  qed
qed

lemma onDisconnect_room:
  assumes "map_keys_ok (rooms s)" "map_get (rooms s) A = Some r"
  shows "map_get (rooms (fst (onDisconnect sid s))) A = afterDisconnect sid r"
proof -
  have d: "distinct (map fst (rooms s))" using assms(1) by (simp add: map_keys_ok_def)
  have m: "map_of (rooms s) A = Some r" using assms(2) by (simp add: map_get_def)
  show ?thesis
    unfolding onDisconnect_def
    using disconnect_fold [OF d, of sid "(s\<lparr>socketRooms := (socketRooms s)(sid := [])\<rparr>, [])" A] m assms(2)
    by (auto simp add: afterDisconnect_def split: option.splits)
qed

lemmas jsmap_defs = map_get_def map_has_def map_set_def map_delete_def map_size_def

lemmas handler_defs = onJoinRoom_def onDraw_def onCursorMove_def onRequestUndo_def
  onRequestRedo_def onClearCanvas_def onDisconnect_def disconnectRoom_def
  newRoom_def addUser_def removeUser_def updateCursor_def usersWithColors_def getHistory_def
  newDrawingState_def addOperation_def

lemma departed_rooms: "rooms (runEvents initialState departedScenario) = [(''r'', roomLeft)]"
  by (simp add: runEvents_def departedScenario_def initialState_def handler_defs jsmap_defs
      Let_def roomLeft_def segment_def)

lemma sharedId_state:
  "rooms (runEvents initialState sharedIdScenario) = []"
  "socketRooms (runEvents initialState sharedIdScenario) ''s1'' = [''s1'', ''r'']"
  by (simp_all add: runEvents_def sharedIdScenario_def initialState_def handler_defs jsmap_defs
      Let_def colors_def)

lemma sevenJoins_users:
  "map_get (rooms (runEvents initialState sevenJoins)) ''r'' =
     Some \<lparr>roomId = ''r'',
           users = [(''u1'', \<lparr>socketId = ''s1'', name = ''n1''\<rparr>), (''u2'', \<lparr>socketId = ''s2'', name = ''n2''\<rparr>),
                    (''u3'', \<lparr>socketId = ''s3'', name = ''n3''\<rparr>), (''u4'', \<lparr>socketId = ''s4'', name = ''n4''\<rparr>),
                    (''u5'', \<lparr>socketId = ''s5'', name = ''n5''\<rparr>), (''u6'', \<lparr>socketId = ''s6'', name = ''n6''\<rparr>),
                    (''u7'', \<lparr>socketId = ''s7'', name = ''n7''\<rparr>)],
           cursorPositions = [], drawingState = newDrawingState\<rparr>"
  by (simp add: runEvents_def sevenJoins_def initialState_def handler_defs jsmap_defs
      Let_def colors_def)

subsection \<open>The keys of the registry stay distinct\<close>

lemma disconnectRoom_keys_ok:
  "map_keys_ok (rooms (fst acc)) \<Longrightarrow> map_keys_ok (rooms (fst (disconnectRoom sid acc e)))"
  by (simp add: disconnectRoom_def Let_def keys_ok_set keys_ok_delete split: option.splits)

lemma disconnect_fold_keys_ok:
  "map_keys_ok (rooms (fst acc)) \<Longrightarrow> map_keys_ok (rooms (fst (foldl (disconnectRoom sid) acc es)))"
  by (induction es arbitrary: acc) (simp_all add: disconnectRoom_keys_ok)

lemma handle_keys_ok:
  assumes "map_keys_ok (rooms s)"
  shows "map_keys_ok (rooms (fst (handle sid now ev s)))"
proof (cases ev)
  case Connection
  then show ?thesis using assms by simp
next
  case (JoinRoom rid uid uname)
  then show ?thesis using assms by (simp add: onJoinRoom_result keys_ok_set)
next
  case (Draw rid uid ax0 ay0 ax1 ay1 col w)
  then show ?thesis using assms
    by (simp add: onDraw_def Let_def keys_ok_set split: option.splits)
next
  case (CursorMove rid uid px py)
  then show ?thesis using assms
    by (simp add: onCursorMove_def Let_def keys_ok_set split: option.splits)
next
  case (RequestUndo rid uid)
  then show ?thesis using assms
    by (simp add: onRequestUndo_def Let_def keys_ok_set split: option.splits)
next
  case (RequestRedo rid uid)
  then show ?thesis using assms
    by (simp add: onRequestRedo_def Let_def keys_ok_set split: option.splits)
next
  case (ClearCanvas rid)
  then show ?thesis using assms
    by (simp add: onClearCanvas_def Let_def keys_ok_set split: option.splits)
next
  case Disconnect
  then show ?thesis using assms
    by (simp add: onDisconnect_def disconnect_fold_keys_ok)
qed

lemma runEvents_keys_ok:
  "map_keys_ok (rooms s) \<Longrightarrow> map_keys_ok (rooms (runEvents s es))"
  unfolding runEvents_def
  by (induction es arbitrary: s) (simp_all add: handle_keys_ok)

lemma reachable_keys_ok: "map_keys_ok (rooms (runEvents initialState es))"
  by (rule runEvents_keys_ok) (simp add: initialState_def map_keys_ok_def)

subsection \<open>Events for a room that the registry does not have\<close>

lemma unknown_room_draw:
  "map_get (rooms s) rid = None \<Longrightarrow>
   onDraw rid uid ax0 ay0 ax1 ay1 col w now s = (s, [(ToRoom rid, NewDrawOperation uid ax0 ay0 ax1 ay1 col w)])"
  by (simp add: onDraw_def)

lemma unknown_room_dropped:
  "map_get (rooms s) rid = None \<Longrightarrow>
   onRequestUndo rid uid s = (s, []) \<and> onRequestRedo rid uid s = (s, []) \<and> onClearCanvas rid s = (s, [])"
  by (simp add: onRequestUndo_def onRequestRedo_def onClearCanvas_def)

text \<open>
  Claim C7. An undo, redo or clear event for a room id that the registry does not have is
  dropped (\<open>unknown_room_dropped\<close>), and a \<open>draw\<close> event for such a room id changes no
  state (\<open>unknown_room_draw\<close>). The \<open>draw\<close> handler nevertheless sends
  \<open>new-draw-operation\<close> to the socket.io room of that id: after \<open>sharedIdScenario\<close> the
  registry has no room \<open>r\<close>, socket \<open>s1\<close> is still in the socket.io room \<open>r\<close>, and a
  \<open>draw\<close> event for \<open>r\<close> is broadcast to it; the same happens from the initial state for
  a room id nobody has joined.
\<close>
theorem draw_for_unknown_room_is_broadcast:
  "map_get (rooms (runEvents initialState sharedIdScenario)) ''r'' = None \<and>
   socketRooms (runEvents initialState sharedIdScenario) ''s1'' = [''s1'', ''r''] \<and>
   handle ''s1'' 5 (Draw ''r'' ''u'' 0 0 5 5 ''#FF0000'' 3) (runEvents initialState sharedIdScenario) =
     (runEvents initialState sharedIdScenario,
      [(ToRoom ''r'', NewDrawOperation ''u'' 0 0 5 5 ''#FF0000'' 3)]) \<and>
   map_get (rooms initialState) ''nowhere'' = None \<and>
   handle ''s1'' 5 (Draw ''nowhere'' ''u'' 0 0 5 5 ''#FF0000'' 3) initialState =
     (initialState, [(ToRoom ''nowhere'', NewDrawOperation ''u'' 0 0 5 5 ''#FF0000'' 3)])"
proof -
  have a: "map_get (rooms (runEvents initialState sharedIdScenario)) ''r'' = None"
    by (simp add: sharedId_state map_get_def)
  have b: "map_get (rooms initialState) ''nowhere'' = None"
    by (simp add: initialState_def map_get_def)
  show ?thesis
    using a b by (simp add: unknown_room_draw sharedId_state)
qed

subsection \<open>Undo and redo for a user who is not in the room\<close>

lemma room_update_same: "(room\<lparr>drawingState := d\<rparr> = room) = (d = drawingState room)"
  by (cases room) auto

lemma undo_unchanged_iff:
  "(fst (undoUserOperation d uid) = d) = (\<forall>op \<in> set (history d). userId op \<noteq> uid)"
proof
  assume same: "fst (undoUserOperation d uid) = d"
  show "\<forall>op \<in> set (history d). userId op \<noteq> uid"
  proof (rule ccontr)
    assume "\<not> (\<forall>op \<in> set (history d). userId op \<noteq> uid)"
    then have "\<exists>j<length (history d). userId (history d ! j) = uid"
      by (metis in_set_conv_nth)
    from undoLoop_found [OF this] obtain i where i: "i < length (history d)"
      "undoLoop d uid (length (history d)) = (undoAt d uid i, True)" by blast
    then have "history (fst (undoUserOperation d uid)) = take i (history d) @ drop (Suc i) (history d)"
      by (simp add: undoUserOperation_def history_undoAt)
    then have "length (history (fst (undoUserOperation d uid))) < length (history d)"
      using i(1) by simp
    with same show False by simp
  qed
next
  assume "\<forall>op \<in> set (history d). userId op \<noteq> uid"
  then have "undoLoop d uid (length (history d)) = (d, False)"
    by (intro undoLoop_none) simp
  then show "fst (undoUserOperation d uid) = d" by (simp add: undoUserOperation_def)
qed

lemma redo_unchanged_iff:
  "(fst (redoUserOperation d uid) = d) = (redoStackOf d uid = [])"
proof
  assume same: "fst (redoUserOperation d uid) = d"
  show "redoStackOf d uid = []"
  proof (rule ccontr)
    assume "redoStackOf d uid \<noteq> []"
    then have "length (history (fst (redoUserOperation d uid))) = Suc (length (history d))"
      by (auto simp add: redoUserOperation_def redoStackOf_def split: option.splits)
    with same show False by simp
  qed
next
  assume "redoStackOf d uid = []"
  then show "fst (redoUserOperation d uid) = d"
    by (auto simp add: redoUserOperation_def redoStackOf_def split: option.splits)
qed

text \<open>
  Claim C8, as the handlers have it. \<open>request-undo\<close> and \<open>request-redo\<close> for an existing
  room do not read the room's \<open>users\<close> map: the room's log becomes the result of
  \<open>undoUserOperation\<close> or \<open>redoUserOperation\<close> for the named user id, whoever is in the
  room. The room is unchanged exactly when the history holds no operation of that user id
  (undo), or when the redo stack of that user id is empty or missing (redo); then the
  whole server state is unchanged.
\<close>
theorem undo_redo_ignore_room_membership:
  assumes "map_get (rooms s) rid = Some room"
  shows "map_get (rooms (fst (onRequestUndo rid uid s))) rid =
           Some (room\<lparr>drawingState := fst (undoUserOperation (drawingState room) uid)\<rparr>) \<and>
         map_get (rooms (fst (onRequestRedo rid uid s))) rid =
           Some (room\<lparr>drawingState := fst (redoUserOperation (drawingState room) uid)\<rparr>) \<and>
         ((map_get (rooms (fst (onRequestUndo rid uid s))) rid = Some room) =
            (\<forall>op \<in> set (history (drawingState room)). userId op \<noteq> uid)) \<and>
         ((map_get (rooms (fst (onRequestRedo rid uid s))) rid = Some room) =
            (redoStackOf (drawingState room) uid = [])) \<and>
         ((\<forall>op \<in> set (history (drawingState room)). userId op \<noteq> uid) \<longrightarrow>
            fst (onRequestUndo rid uid s) = s) \<and>
         (redoStackOf (drawingState room) uid = [] \<longrightarrow> fst (onRequestRedo rid uid s) = s)"
proof -
  have u: "fst (onRequestUndo rid uid s) =
      s\<lparr>rooms := map_set (rooms s) rid (room\<lparr>drawingState := fst (undoUserOperation (drawingState room) uid)\<rparr>)\<rparr>"
    using assms by (simp add: onRequestUndo_def Let_def)
  have r: "fst (onRequestRedo rid uid s) =
      s\<lparr>rooms := map_set (rooms s) rid (room\<lparr>drawingState := fst (redoUserOperation (drawingState room) uid)\<rparr>)\<rparr>"
    using assms by (simp add: onRequestRedo_def Let_def)
  have same: "s\<lparr>rooms := map_set (rooms s) rid room\<rparr> = s"
    using set_same [OF assms] by simp
  have room_same: "room\<lparr>drawingState := drawingState room\<rparr> = room" by simp
  have noU: "fst (onRequestUndo rid uid s) = s"
    if "\<forall>op \<in> set (history (drawingState room)). userId op \<noteq> uid"
    using that same unfolding u by (simp add: undo_unchanged_iff [symmetric])
  have noR: "fst (onRequestRedo rid uid s) = s"
    if "redoStackOf (drawingState room) uid = []"
    using that same unfolding r by (simp add: redo_unchanged_iff [symmetric])
  have rest: "map_get (rooms (fst (onRequestUndo rid uid s))) rid =
           Some (room\<lparr>drawingState := fst (undoUserOperation (drawingState room) uid)\<rparr>) \<and>
         map_get (rooms (fst (onRequestRedo rid uid s))) rid =
           Some (room\<lparr>drawingState := fst (redoUserOperation (drawingState room) uid)\<rparr>) \<and>
         ((map_get (rooms (fst (onRequestUndo rid uid s))) rid = Some room) =
            (\<forall>op \<in> set (history (drawingState room)). userId op \<noteq> uid)) \<and>
         ((map_get (rooms (fst (onRequestRedo rid uid s))) rid = Some room) =
            (redoStackOf (drawingState room) uid = []))"
    unfolding u r
    by (simp add: get_set room_update_same undo_unchanged_iff redo_unchanged_iff)
  from rest noU noR show ?thesis by blast
qed

lemma undoUserOperation_departed:
  "undoUserOperation \<lparr>history = [segment ''u1'' 4], userRedoStacks = []\<rparr> ''u1'' =
     (\<lparr>history = [], userRedoStacks = [(''u1'', [segment ''u1'' 4])]\<rparr>, True)"
  by (simp add: undoUserOperation_def undoAt_def splice1_def jsmap_defs userId_segment)

text \<open>
  Claim C8 as stated fails: after \<open>departedScenario\<close> user \<open>u1\<close> is not in the \<open>users\<close>
  map of room \<open>r\<close>, the history of the room holds the segment of \<open>u1\<close>, and
  \<open>request-undo\<close> for \<open>u1\<close> moves that segment from the history to a redo stack.
\<close>
theorem undo_of_departed_user_counterexample:
  "map_get (rooms (runEvents initialState departedScenario)) ''r'' = Some roomLeft \<and>
   map_get (users roomLeft) ''u1'' = None \<and>
   drawingState roomLeft = \<lparr>history = [segment ''u1'' 4], userRedoStacks = []\<rparr> \<and>
   map_get (rooms (fst (handle ''s2'' 6 (RequestUndo ''r'' ''u1'') (runEvents initialState departedScenario)))) ''r'' =
     Some (roomLeft\<lparr>drawingState := \<lparr>history = [], userRedoStacks = [(''u1'', [segment ''u1'' 4])]\<rparr>\<rparr>)"
proof -
  have a: "map_get (rooms (runEvents initialState departedScenario)) ''r'' = Some roomLeft"
    by (simp add: departed_rooms map_get_def)
  have b: "map_get (users roomLeft) ''u1'' = None"
    by (simp add: roomLeft_def map_get_def)
  have c: "drawingState roomLeft = \<lparr>history = [segment ''u1'' 4], userRedoStacks = []\<rparr>"
    by (simp add: roomLeft_def)
  have d: "map_get (rooms (fst (handle ''s2'' 6 (RequestUndo ''r'' ''u1'') (runEvents initialState departedScenario)))) ''r'' =
     Some (roomLeft\<lparr>drawingState := \<lparr>history = [], userRedoStacks = [(''u1'', [segment ''u1'' 4])]\<rparr>\<rparr>)"
    using a by (simp add: onRequestUndo_def Let_def get_set c undoUserOperation_departed)
  from a b c d show ?thesis by blast
qed

theorem undo_redo_ignore_room_membership_witness:
  "map_get (rooms (runEvents initialState departedScenario)) ''r'' = Some roomLeft \<and>
   map_get (users roomLeft) ''u3'' = None \<and>
   map_get (rooms (fst (onRequestUndo ''r'' ''u3'' (runEvents initialState departedScenario)))) ''r'' = Some roomLeft \<and>
   fst (onRequestUndo ''r'' ''u3'' (runEvents initialState departedScenario)) = runEvents initialState departedScenario \<and>
   fst (onRequestRedo ''r'' ''u3'' (runEvents initialState departedScenario)) = runEvents initialState departedScenario \<and>
   map_get (rooms (fst (onRequestUndo ''r'' ''u1'' (runEvents initialState departedScenario)))) ''r'' \<noteq> Some roomLeft"
proof -
  have a: "map_get (rooms (runEvents initialState departedScenario)) ''r'' = Some roomLeft"
    by (simp add: departed_rooms map_get_def)
  have b: "map_get (users roomLeft) ''u3'' = None"
    by (simp add: roomLeft_def map_get_def)
  have h1: "\<forall>op \<in> set (history (drawingState roomLeft)). userId op \<noteq> ''u3''"
    by (simp add: roomLeft_def userId_segment)
  have h2: "redoStackOf (drawingState roomLeft) ''u3'' = []"
    by (simp add: roomLeft_def redoStackOf_def map_get_def)
  have h3: "\<not> (\<forall>op \<in> set (history (drawingState roomLeft)). userId op \<noteq> ''u1'')"
    by (simp add: roomLeft_def userId_segment)
  from undo_redo_ignore_room_membership [OF a, of "''u3''"]
       undo_redo_ignore_room_membership [OF a, of "''u1''"] a b h1 h2 h3
  show ?thesis by blast
qed

lemma users_joinedRoom:
  "users (joinedRoom sid rid uid uname s) =
     map_set (users (case map_get (rooms s) rid of None \<Rightarrow> newRoom rid | Some r \<Rightarrow> r)) uid
       \<lparr>socketId = sid, name = uname\<rparr>"
  by (simp add: joinedRoom_def addUser_def)

lemma joinedColor_fresh_room:
  "map_get (rooms s) rid = None \<Longrightarrow> joinedColor sid rid uid uname s = colors ! 1"
  by (simp add: joinedColor_def users_joinedRoom newRoom_def jsmap_defs length_colors)

lemma joinedColor_eighth:
  assumes "map_get (rooms s) rid = Some room0" "map_size (users room0) = 7" "\<not> map_has (users room0) uid"
  shows "joinedColor sid rid uid uname s = colors ! 0"
  using assms by (simp add: joinedColor_def users_joinedRoom size_set length_colors)

text \<open>
  Claim C9. The \<open>join-room\<close> handler gives the joining user the color
  \<open>colors ! (n mod length colors)\<close>, where \<open>colors\<close> is the palette of 8 colors and \<open>n\<close> is
  the size of the room's \<open>users\<close> map after the user has been inserted; the color is
  stored in \<open>userColors\<close> and sent in both messages. The first user of a room that the
  registry did not have gets \<open>colors ! 1\<close>, and a new user who joins a room of seven gets
  \<open>colors ! 0\<close>.
\<close>
theorem join_assigns_palette_color:
  "(\<exists>room.
      map_get (rooms (fst (onJoinRoom sid rid uid uname s))) rid = Some room \<and>
      users room =
        map_set (users (case map_get (rooms s) rid of None \<Rightarrow> newRoom rid | Some r \<Rightarrow> r)) uid
          \<lparr>socketId = sid, name = uname\<rparr> \<and>
      map_get (userColors (fst (onJoinRoom sid rid uid uname s))) uid =
        Some (colors ! (map_size (users room) mod length colors)) \<and>
      (\<exists>ops views.
         snd (onJoinRoom sid rid uid uname s) =
           [(ToSocket sid, DrawingHistoryJoin ops uid
               (Some (colors ! (map_size (users room) mod length colors))) views),
            (ToRoomExcept rid sid, UserJoined uid uname
               (Some (colors ! (map_size (users room) mod length colors))) views)])) \<and>
   length colors = 8 \<and>
   (map_get (rooms s) rid = None \<longrightarrow>
      map_get (userColors (fst (onJoinRoom sid rid uid uname s))) uid = Some (colors ! 1)) \<and>
   (\<forall>room0. map_get (rooms s) rid = Some room0 \<and> map_size (users room0) = 7 \<and>
        \<not> map_has (users room0) uid \<longrightarrow>
      map_get (userColors (fst (onJoinRoom sid rid uid uname s))) uid = Some (colors ! 0))"
proof (intro conjI exI allI impI)
  show "map_get (rooms (fst (onJoinRoom sid rid uid uname s))) rid = Some (joinedRoom sid rid uid uname s)"
    by (simp add: onJoinRoom_result get_set)
  show "users (joinedRoom sid rid uid uname s) =
        map_set (users (case map_get (rooms s) rid of None \<Rightarrow> newRoom rid | Some r \<Rightarrow> r)) uid
          \<lparr>socketId = sid, name = uname\<rparr>"
    by (rule users_joinedRoom)
  show "map_get (userColors (fst (onJoinRoom sid rid uid uname s))) uid =
        Some (colors ! (map_size (users (joinedRoom sid rid uid uname s)) mod length colors))"
    by (simp add: onJoinRoom_result get_set joinedColor_def)
  show "snd (onJoinRoom sid rid uid uname s) =
           [(ToSocket sid, DrawingHistoryJoin (getHistory (drawingState (joinedRoom sid rid uid uname s))) uid
               (Some (colors ! (map_size (users (joinedRoom sid rid uid uname s)) mod length colors)))
               (usersWithColors (joinedRoom sid rid uid uname s)
                  (map_set (userColors s) uid (joinedColor sid rid uid uname s)))),
            (ToRoomExcept rid sid, UserJoined uid uname
               (Some (colors ! (map_size (users (joinedRoom sid rid uid uname s)) mod length colors)))
               (usersWithColors (joinedRoom sid rid uid uname s)
                  (map_set (userColors s) uid (joinedColor sid rid uid uname s))))]"
    by (simp add: onJoinRoom_result joinedColor_def)
  show "length colors = 8" by (rule length_colors)
  show "map_get (userColors (fst (onJoinRoom sid rid uid uname s))) uid = Some (colors ! 1)"
    if "map_get (rooms s) rid = None"
    using that by (simp add: onJoinRoom_result get_set joinedColor_fresh_room)
  show "map_get (userColors (fst (onJoinRoom sid rid uid uname s))) uid = Some (colors ! 0)"
    if "map_get (rooms s) rid = Some room0 \<and> map_size (users room0) = 7 \<and> \<not> map_has (users room0) uid"
    for room0
    using that by (simp add: onJoinRoom_result get_set joinedColor_eighth)
qed

theorem join_assigns_palette_color_witness:
  "map_get (rooms initialState) ''r'' = None \<and>
   map_get (userColors (fst (onJoinRoom ''s1'' ''r'' ''u1'' ''Ann'' initialState))) ''u1'' = Some ''#4ECDC4'' \<and>
   map_get (userColors (fst (onJoinRoom ''s8'' ''r'' ''u8'' ''n8'' (runEvents initialState sevenJoins)))) ''u8''
     = Some ''#FF6B6B''"
proof -
  have a: "map_get (rooms initialState) ''r'' = None"
    by (simp add: initialState_def map_get_def)
  have b: "map_size (users \<lparr>roomId = ''r'',
           users = [(''u1'', \<lparr>socketId = ''s1'', name = ''n1''\<rparr>), (''u2'', \<lparr>socketId = ''s2'', name = ''n2''\<rparr>),
                    (''u3'', \<lparr>socketId = ''s3'', name = ''n3''\<rparr>), (''u4'', \<lparr>socketId = ''s4'', name = ''n4''\<rparr>),
                    (''u5'', \<lparr>socketId = ''s5'', name = ''n5''\<rparr>), (''u6'', \<lparr>socketId = ''s6'', name = ''n6''\<rparr>),
                    (''u7'', \<lparr>socketId = ''s7'', name = ''n7''\<rparr>)],
           cursorPositions = [], drawingState = newDrawingState\<rparr>) = 7"
    by (simp add: map_size_def)
  have c: "\<not> map_has (users \<lparr>roomId = ''r'',
           users = [(''u1'', \<lparr>socketId = ''s1'', name = ''n1''\<rparr>), (''u2'', \<lparr>socketId = ''s2'', name = ''n2''\<rparr>),
                    (''u3'', \<lparr>socketId = ''s3'', name = ''n3''\<rparr>), (''u4'', \<lparr>socketId = ''s4'', name = ''n4''\<rparr>),
                    (''u5'', \<lparr>socketId = ''s5'', name = ''n5''\<rparr>), (''u6'', \<lparr>socketId = ''s6'', name = ''n6''\<rparr>),
                    (''u7'', \<lparr>socketId = ''s7'', name = ''n7''\<rparr>)],
           cursorPositions = [], drawingState = newDrawingState\<rparr>) ''u8''"
    by (simp add: map_has_def)
  have c1: "colors ! 1 = ''#4ECDC4''" and c0: "colors ! 0 = ''#FF6B6B''"
    by (simp_all add: colors_def)
  from join_assigns_palette_color [of "''s1''" "''r''" "''u1''" "''Ann''" initialState] a
  have first: "map_get (userColors (fst (onJoinRoom ''s1'' ''r'' ''u1'' ''Ann'' initialState))) ''u1'' = Some (colors ! 1)"
    by blast
  from join_assigns_palette_color [of "''s8''" "''r''" "''u8''" "''n8''" "runEvents initialState sevenJoins"]
    sevenJoins_users b c
  have eighth: "map_get (userColors (fst (onJoinRoom ''s8'' ''r'' ''u8'' ''n8'' (runEvents initialState sevenJoins)))) ''u8''
     = Some (colors ! 0)"
    by blast
  from a first eighth show ?thesis unfolding c0 c1 by blast
qed

text \<open>
  Claim C10. Let user \<open>uid\<close> have an entry in the \<open>users\<close> map of room \<open>A\<close>. A \<open>join-room\<close>
  for another room \<open>B\<close> leaves room \<open>A\<close> in the registry exactly as it was (users, cursors
  and log). No event other than \<open>disconnect\<close> removes room \<open>A\<close> or the user's entry or
  cursor. The \<open>disconnect\<close> of a socket removes from room \<open>A\<close> the first user whose
  \<open>socketId\<close> is that socket's, and deletes room \<open>A\<close> only when that leaves it without
  users; \<open>map_keys_ok\<close> says that the keys of the registry are distinct, as the keys of a
  \<open>Map\<close> are.
\<close>
theorem join_elsewhere_keeps_membership:
  assumes "map_get (rooms s) A = Some roomA" "map_get (users roomA) uid = Some ud"
  shows "(B \<noteq> A \<longrightarrow> map_get (rooms (fst (onJoinRoom sid B uid uname s))) A = Some roomA) \<and>
         (ev \<noteq> Disconnect \<longrightarrow>
            (\<exists>r'. map_get (rooms (fst (handle sid' now ev s))) A = Some r' \<and>
                  map_has (users r') uid \<and>
                  (map_has (cursorPositions roomA) uid \<longrightarrow> map_has (cursorPositions r') uid))) \<and>
         (map_keys_ok (rooms s) \<longrightarrow>
            map_get (rooms (fst (onDisconnect sid' s))) A =
              (case find (\<lambda>e. socketId (snd e) = sid') (users roomA) of
                 None \<Rightarrow> Some roomA
               | Some userEntry \<Rightarrow>
                   if map_size (users (removeUser roomA (fst userEntry))) = 0 then None
                   else Some (removeUser roomA (fst userEntry))))"
proof (intro conjI impI)
  assume "B \<noteq> A"
  then show "map_get (rooms (fst (onJoinRoom sid B uid uname s))) A = Some roomA"
    using assms(1) by (simp add: join_other_room)
next
  assume "ev \<noteq> Disconnect"
  from handle_keeps_members [OF this assms(1), of sid' now]
  obtain r' where r': "map_get (rooms (fst (handle sid' now ev s))) A = Some r'" "keepsMembers roomA r'"
    by blast
  have "map_has (users roomA) uid" using assms(2) by (simp add: has_get)
  with r'(2) have "map_has (users r') uid \<and>
      (map_has (cursorPositions roomA) uid \<longrightarrow> map_has (cursorPositions r') uid)"
    by (simp add: keepsMembers_def)
  with r'(1) show "\<exists>r'. map_get (rooms (fst (handle sid' now ev s))) A = Some r' \<and>
                  map_has (users r') uid \<and>
                  (map_has (cursorPositions roomA) uid \<longrightarrow> map_has (cursorPositions r') uid)"
    by blast
next
  assume "map_keys_ok (rooms s)"
  from onDisconnect_room [OF this assms(1), of sid']
  show "map_get (rooms (fst (onDisconnect sid' s))) A =
              (case find (\<lambda>e. socketId (snd e) = sid') (users roomA) of
                 None \<Rightarrow> Some roomA
               | Some userEntry \<Rightarrow>
                   if map_size (users (removeUser roomA (fst userEntry))) = 0 then None
                   else Some (removeUser roomA (fst userEntry)))"
    by (simp add: afterDisconnect_def)
qed

lemma oneRoom_rooms: "rooms (runEvents initialState oneRoomScenario) = [(''a'', roomA1)]"
  by (simp add: runEvents_def oneRoomScenario_def initialState_def handler_defs jsmap_defs
      Let_def roomA1_def)

theorem join_elsewhere_keeps_membership_witness:
  "map_get (rooms (runEvents initialState oneRoomScenario)) ''a'' = Some roomA1 \<and>
   map_get (users roomA1) ''u1'' = Some \<lparr>socketId = ''s1'', name = ''Ann''\<rparr> \<and>
   map_get (rooms (fst (onJoinRoom ''s1'' ''b'' ''u1'' ''Ann'' (runEvents initialState oneRoomScenario)))) ''a''
     = Some roomA1 \<and>
   map_get (rooms (fst (onDisconnect ''s2'' (runEvents initialState oneRoomScenario)))) ''a'' = Some roomA1 \<and>
   map_get (rooms (fst (onDisconnect ''s1'' (runEvents initialState oneRoomScenario)))) ''a'' = None"
proof -
  have a: "map_get (rooms (runEvents initialState oneRoomScenario)) ''a'' = Some roomA1"
    by (simp add: oneRoom_rooms map_get_def)
  have b: "map_get (users roomA1) ''u1'' = Some \<lparr>socketId = ''s1'', name = ''Ann''\<rparr>"
    by (simp add: roomA1_def map_get_def)
  have k: "map_keys_ok (rooms (runEvents initialState oneRoomScenario))"
    by (rule reachable_keys_ok)
  have ne: "''b'' \<noteq> ''a''" by simp
  from join_elsewhere_keeps_membership [OF a b, of "''b''" "''s1''" "''Ann''" Connection "''s2''" 0] ne k
  have j: "map_get (rooms (fst (onJoinRoom ''s1'' ''b'' ''u1'' ''Ann'' (runEvents initialState oneRoomScenario)))) ''a''
     = Some roomA1"
    and d2: "map_get (rooms (fst (onDisconnect ''s2'' (runEvents initialState oneRoomScenario)))) ''a'' =
              (case find (\<lambda>e. socketId (snd e) = ''s2'') (users roomA1) of
                 None \<Rightarrow> Some roomA1
               | Some userEntry \<Rightarrow>
                   if map_size (users (removeUser roomA1 (fst userEntry))) = 0 then None
                   else Some (removeUser roomA1 (fst userEntry)))"
    by blast+
  from join_elsewhere_keeps_membership [OF a b, of "''b''" "''s1''" "''Ann''" Connection "''s1''" 0] k
  have d1: "map_get (rooms (fst (onDisconnect ''s1'' (runEvents initialState oneRoomScenario)))) ''a'' =
              (case find (\<lambda>e. socketId (snd e) = ''s1'') (users roomA1) of
                 None \<Rightarrow> Some roomA1
               | Some userEntry \<Rightarrow>
                   if map_size (users (removeUser roomA1 (fst userEntry))) = 0 then None
                   else Some (removeUser roomA1 (fst userEntry)))"
    by blast
  have e2: "map_get (rooms (fst (onDisconnect ''s2'' (runEvents initialState oneRoomScenario)))) ''a'' = Some roomA1"
    unfolding d2 by (simp add: roomA1_def)
  have e1: "map_get (rooms (fst (onDisconnect ''s1'' (runEvents initialState oneRoomScenario)))) ''a'' = None"
    unfolding d1 by (simp add: roomA1_def removeUser_def jsmap_defs)
  from a b j e2 e1 show ?thesis by blast
qed

end
